theory Spec2Isabelle
  imports Main "HOL-Library.Word"
begin

unbundle bit_operations_syntax

section \<open>Data model\<close>

text \<open>
  Go's \<open>int64\<close> and \<open>uint64\<close> are 64-bit words. Go's \<open>int\<close> (the type of the
  cursor \<open>CurrentBlock\<close>) is taken at its 64-bit width, as on amd64 and arm64, so the
  conversion \<open>int64(currentBlock)\<close> is the identity. Signed readings use \<open>sint\<close>,
  signed comparisons \<open>\<le>s\<close> and \<open><s\<close>.
\<close>

type_synonym int64 = "64 word"
type_synonym uint64 = "64 word"
type_synonym go_int = "64 word"

text \<open>\<open>RawTx\<close> and \<open>BlockResponse\<close> of json_rpc_client.go. The anonymous struct of
  the field \<open>Result\<close> is the record \<open>BlockResult\<close>.\<close>

record RawTx =
  raw_Hash :: string
  raw_From :: string
  raw_To :: string
  raw_Value :: string

record BlockResult =
  Number :: string
  blk_Hash :: string
  Transactions :: "RawTx list"

record BlockResponse =
  Jsonrpc :: string
  ID :: int
  Result :: BlockResult

text \<open>\<open>Transaction\<close>, the internal representation of a transaction.\<close>

record Transaction =
  Hash :: string
  From :: string
  To :: string
  Value :: string
  Block :: int64

text \<open>
  Errors as values. \<open>NumError\<close> is strconv's \<open>*NumError\<close> with its fields
  \<open>Func\<close>, \<open>Num\<close> and \<open>Err\<close>; \<open>ClientError\<close> is whatever error the chain client
  returns; the other three are the three \<open>fmt.Errorf\<close> wrappers of
  \<open>processNextBlock\<close>, each carrying the error it wraps with \<open>%w\<close>.
\<close>

datatype strconv_err = ErrSyntax | ErrRange

datatype error =
    NumError string string strconv_err
  | ClientError string
  | FailedGetBlockNumber error
  | FailedConvertHex error
  | FailedFetchBlock go_int error

section \<open>strconv.ParseInt at base 16 and bit size 64\<close>

text \<open>
  \<open>hexToInt64\<close> calls \<open>strconv.ParseInt(h, 16, 64)\<close> of the Go standard library. The
  model follows the library function for that base and bit size: \<open>ParseUint\<close> walks the
  bytes, rejects a byte that is not a digit below the base with \<open>ErrSyntax\<close>, and stops
  with \<open>ErrRange\<close> and the value \<open>maxVal\<close> as soon as the accumulator would overflow;
  \<open>ParseInt\<close> picks off a leading sign, and checks the signed range. Both return the
  Go pair (value, error), the error being \<open>None\<close> for \<open>nil\<close>. The prefix and
  underscore handling of the library applies to base 0 only and is not part of the model.
  \<open>lower\<close> and \<open>digit_val\<close> work on the byte as a number.
\<close>

definition lower :: "nat \<Rightarrow> nat" where
  "lower c = c OR (of_char CHR ''x'' - of_char CHR ''X'')"

definition digit_val :: "char \<Rightarrow> nat option" where
  "digit_val ch =
     (let c = (of_char ch :: nat) in
      if of_char CHR ''0'' \<le> c \<and> c \<le> of_char CHR ''9'' then Some (c - of_char CHR ''0'')
      else if of_char CHR ''a'' \<le> lower c \<and> lower c \<le> of_char CHR ''z''
        then Some (lower c - of_char CHR ''a'' + 10)
      else None)"

definition maxUint64 :: uint64 where
  "maxUint64 = push_bit 64 1 - 1"

definition cutoff16 :: uint64 where
  "cutoff16 = maxUint64 div 16 + 1"

definition maxVal64 :: uint64 where
  "maxVal64 = push_bit 64 1 - 1"

fun ParseUint_loop :: "string \<Rightarrow> string \<Rightarrow> uint64 \<Rightarrow> uint64 \<times> error option" where
  "ParseUint_loop s0 [] n = (n, None)"
| "ParseUint_loop s0 (ch # rest) n =
     (case digit_val ch of
        None \<Rightarrow> (0, Some (NumError ''ParseUint'' s0 ErrSyntax))
      | Some d \<Rightarrow>
          if d \<ge> 16 then (0, Some (NumError ''ParseUint'' s0 ErrSyntax))
          else if n \<ge> cutoff16 then (maxVal64, Some (NumError ''ParseUint'' s0 ErrRange))
          else (let n' = n * 16; n1 = n' + of_nat d in
                if n1 < n' \<or> n1 > maxVal64
                then (maxVal64, Some (NumError ''ParseUint'' s0 ErrRange))
                else ParseUint_loop s0 rest n1))"

definition ParseUint16 :: "string \<Rightarrow> uint64 \<times> error option" where
  "ParseUint16 s =
     (if s = [] then (0, Some (NumError ''ParseUint'' s ErrSyntax))
      else ParseUint_loop s s 0)"

definition ParseInt16 :: "string \<Rightarrow> int64 \<times> error option" where
  "ParseInt16 s0 =
     (if s0 = [] then (0, Some (NumError ''ParseInt'' s0 ErrSyntax))
      else
        (let neg = (hd s0 = CHR ''-'');
             s = (if hd s0 = CHR ''+'' \<or> hd s0 = CHR ''-'' then tl s0 else s0);
             (un, err) = ParseUint16 s;
             cutoff = (push_bit 63 1 :: uint64)
         in case err of
              Some (NumError f num ErrSyntax) \<Rightarrow> (0, Some (NumError ''ParseInt'' s0 ErrSyntax))
            | _ \<Rightarrow>
              if \<not> neg \<and> un \<ge> cutoff then (cutoff - 1, Some (NumError ''ParseInt'' s0 ErrRange))
              else if neg \<and> un > cutoff then (- cutoff, Some (NumError ''ParseInt'' s0 ErrRange))
              else (if neg then - un else un, None)))"

section \<open>parser.go: hex parsing\<close>

definition hexToInt64 :: "string \<Rightarrow> int64 \<times> error option" where
  "hexToInt64 h0 =
     (let h = (if length h0 > 2 \<and> take 2 h0 = ''0x'' then drop 2 h0 else h0);
          (val, err) = ParseInt16 h
      in case err of
           Some e \<Rightarrow> (0, Some e)
         | None \<Rightarrow> (val, None))"

definition hexToInt64OrZero :: "string \<Rightarrow> int64" where
  "hexToInt64OrZero h = fst (hexToInt64 h)"

section \<open>The store (MemoryStore)\<close>

text \<open>
  \<open>MemoryStore\<close> with its three data fields; the two Go maps are partial maps. The
  mutex is left out: every operation below is one atomic step of a sequential run.
  Reading a Go map at a missing key yields the zero value: \<open>false\<close> for
  \<open>subscribed\<close> (\<open>sub_get\<close>) and the nil slice for \<open>transactions\<close> (\<open>txs_get\<close>).
\<close>

record MemoryStore =
  CurrentBlock :: go_int
  subscribed :: "string \<rightharpoonup> bool"
  transactions :: "string \<rightharpoonup> Transaction list"

definition sub_get :: "MemoryStore \<Rightarrow> string \<Rightarrow> bool" where
  "sub_get m address = (case subscribed m address of None \<Rightarrow> False | Some b \<Rightarrow> b)"

definition txs_get :: "MemoryStore \<Rightarrow> string \<Rightarrow> Transaction list" where
  "txs_get m address = (case transactions m address of None \<Rightarrow> [] | Some txs \<Rightarrow> txs)"

definition GetCurrentBlock :: "MemoryStore \<Rightarrow> go_int" where
  "GetCurrentBlock m = CurrentBlock m"

definition SetCurrentBlock :: "go_int \<Rightarrow> MemoryStore \<Rightarrow> MemoryStore" where
  "SetCurrentBlock block m = m\<lparr>CurrentBlock := block\<rparr>"

definition NewMemoryStore :: MemoryStore where
  "NewMemoryStore = \<lparr>CurrentBlock = 0, subscribed = Map.empty, transactions = Map.empty\<rparr>"

definition Subscribe :: "string \<Rightarrow> MemoryStore \<Rightarrow> bool \<times> MemoryStore" where
  "Subscribe address m =
     (if sub_get m address then (False, m)
      else (True, m\<lparr>subscribed := (subscribed m)(address \<mapsto> True),
                     transactions := (transactions m)(address \<mapsto> [])\<rparr>))"

definition IsSubscribed :: "MemoryStore \<Rightarrow> string \<Rightarrow> bool" where
  "IsSubscribed m address = sub_get m address"

definition AddTransaction :: "string \<Rightarrow> Transaction \<Rightarrow> MemoryStore \<Rightarrow> MemoryStore" where
  "AddTransaction address tx m =
     (if sub_get m address
      then m\<lparr>transactions := (transactions m)(address \<mapsto> txs_get m address @ [tx])\<rparr>
      else m)"

text \<open>\<open>GetTransactions\<close> at the level of values: the elements of the slice it returns.
  Its allocation behaviour is modelled on a heap in the section on slices.\<close>

definition GetTransactions :: "MemoryStore \<Rightarrow> string \<Rightarrow> Transaction list" where
  "GetTransactions m address =
     (case transactions m address of
        None \<Rightarrow> []
      | Some txs \<Rightarrow> txs)"

section \<open>The chain client and the parser (parser.go)\<close>

text \<open>
  The interface \<open>JSONRPCClient\<close>: what the two calls answer, as Go pairs. The parser
  \<open>EthParser\<close> keeps the store and the flag \<open>parseRunning\<close>; its client is passed to
  each operation, since the answers of the chain are an input from outside. The logger
  has no effect on the state and is left out.
\<close>

record JSONRPCClient =
  BlockNumber :: "string \<times> error option"
  GetBlockByNumber :: "int64 \<Rightarrow> BlockResponse \<times> error option"

record EthParser =
  store :: MemoryStore
  parseRunning :: bool

definition NewEthParser :: "MemoryStore \<Rightarrow> EthParser" where
  "NewEthParser st = \<lparr>store = st, parseRunning = False\<rparr>"

text \<open>\<open>parseTransactions\<close>: the loop appends one \<open>Transaction\<close> per raw transaction
  to the slice \<open>txs\<close>, which starts nil.\<close>

fun parseTransactions_loop ::
  "BlockResponse \<Rightarrow> RawTx list \<Rightarrow> Transaction list \<Rightarrow> Transaction list" where
  "parseTransactions_loop block [] txs = txs"
| "parseTransactions_loop block (tx # rest) txs =
     parseTransactions_loop block rest
       (txs @ [\<lparr>Hash = raw_Hash tx, From = raw_From tx, To = raw_To tx,
                 Value = raw_Value tx,
                 Block = hexToInt64OrZero (Number (Result block))\<rparr>])"

definition parseTransactions :: "BlockResponse \<Rightarrow> Transaction list" where
  "parseTransactions block = parseTransactions_loop block (Transactions (Result block)) []"

text \<open>\<open>storeTransactions\<close>: the loop over the transactions, on the store.\<close>

fun storeTransactions :: "Transaction list \<Rightarrow> MemoryStore \<Rightarrow> MemoryStore" where
  "storeTransactions [] m = m"
| "storeTransactions (tx # txs) m =
     (let m1 = (if IsSubscribed m (From tx) then AddTransaction (From tx) tx m else m);
          m2 = (if IsSubscribed m1 (To tx) then AddTransaction (To tx) tx m1 else m1)
      in storeTransactions txs m2)"

text \<open>\<open>processNextBlock\<close> returns the error (\<open>None\<close> for \<open>nil\<close>) and the parser
  after the call.\<close>

definition processNextBlock :: "JSONRPCClient \<Rightarrow> EthParser \<Rightarrow> error option \<times> EthParser" where
  "processNextBlock client p =
     (let currentBlock = GetCurrentBlock (store p);
          (latestBlockHex, err) = BlockNumber client
      in case err of
           Some e \<Rightarrow> (Some (FailedGetBlockNumber e), p)
         | None \<Rightarrow>
            (let (latestBlockDecimal, err) = hexToInt64 latestBlockHex
             in case err of
                  Some e \<Rightarrow> (Some (FailedConvertHex e), p)
                | None \<Rightarrow>
                    if latestBlockDecimal \<le>s currentBlock then (None, p)
                    else
                      (let nextBlock = currentBlock + 1;
                           (blockData, err) = GetBlockByNumber client nextBlock
                       in case err of
                            Some e \<Rightarrow> (Some (FailedFetchBlock nextBlock e), p)
                          | None \<Rightarrow>
                              (let txs = parseTransactions blockData;
                                   m1 = storeTransactions txs (store p);
                                   m2 = SetCurrentBlock nextBlock m1
                               in (None, p\<lparr>store := m2\<rparr>)))))"

text \<open>The pass-through methods of the parser.\<close>

definition P_Subscribe :: "string \<Rightarrow> EthParser \<Rightarrow> bool \<times> EthParser" where
  "P_Subscribe address p =
     (let (r, m) = Subscribe address (store p) in (r, p\<lparr>store := m\<rparr>))"

definition P_GetTransactions :: "EthParser \<Rightarrow> string \<Rightarrow> Transaction list" where
  "P_GetTransactions p address = GetTransactions (store p) address"

definition P_GetCurrentBlock :: "EthParser \<Rightarrow> go_int" where
  "P_GetCurrentBlock p = GetCurrentBlock (store p)"

text \<open>
  \<open>StartParsing\<close>. The loop runs until the context is cancelled, and what the chain
  answers changes from one iteration to the next; both come from outside. The run is
  given as the list of the clients' answers, one per iteration the loop makes before it
  sees \<open>ctx.Done()\<close>: the loop body runs once per element and the loop returns at the end
  of the list. An error of \<open>processNextBlock\<close> is logged and dropped. A call that finds
  \<open>parseRunning\<close> set returns at once.
\<close>

fun parse_loop :: "JSONRPCClient list \<Rightarrow> EthParser \<Rightarrow> EthParser" where
  "parse_loop [] p = p"
| "parse_loop (client # rest) p = parse_loop rest (snd (processNextBlock client p))"

definition StartParsing :: "JSONRPCClient list \<Rightarrow> EthParser \<Rightarrow> EthParser" where
  "StartParsing run p =
     (if parseRunning p then p
      else parse_loop run (p\<lparr>parseRunning := True\<rparr>))"

section \<open>Runs of store operations\<close>

text \<open>
  The six operations of the interface \<open>Store\<close> as data, and a run of them on a store.
  The three reads leave the store as it is.
\<close>

datatype store_op =
    OpSubscribe string
  | OpIsSubscribed string
  | OpAddTransaction string Transaction
  | OpGetTransactions string
  | OpSetCurrentBlock go_int
  | OpGetCurrentBlock

fun apply_op :: "store_op \<Rightarrow> MemoryStore \<Rightarrow> MemoryStore" where
  "apply_op (OpSubscribe a) m = snd (Subscribe a m)"
| "apply_op (OpIsSubscribed a) m = m"
| "apply_op (OpAddTransaction a tx) m = AddTransaction a tx m"
| "apply_op (OpGetTransactions a) m = m"
| "apply_op (OpSetCurrentBlock b) m = SetCurrentBlock b m"
| "apply_op OpGetCurrentBlock m = m"

fun run_ops :: "store_op list \<Rightarrow> MemoryStore \<Rightarrow> MemoryStore" where
  "run_ops [] m = m"
| "run_ops (x # xs) m = run_ops xs (apply_op x m)"

text \<open>The transaction of \<open>TestMemoryStore\<close> in parser_test.go.\<close>

definition tx_abc :: Transaction where
  "tx_abc = \<lparr>Hash = ''0xabc'', From = ''0x1234'', To = ''0x5678'', Value = ''0x1'', Block = 100\<rparr>"

section \<open>Runs of parser operations\<close>

text \<open>The methods of \<open>EthParser\<close> as data, and a run of them on a parser.\<close>

datatype parser_op =
    POpSubscribe string
  | POpGetTransactions string
  | POpGetCurrentBlock
  | POpProcessNextBlock JSONRPCClient
  | POpStartParsing "JSONRPCClient list"

fun apply_parser_op :: "parser_op \<Rightarrow> EthParser \<Rightarrow> EthParser" where
  "apply_parser_op (POpSubscribe a) p = snd (P_Subscribe a p)"
| "apply_parser_op (POpGetTransactions a) p = p"
| "apply_parser_op POpGetCurrentBlock p = p"
| "apply_parser_op (POpProcessNextBlock client) p = snd (processNextBlock client p)"
| "apply_parser_op (POpStartParsing run) p = StartParsing run p"

fun run_parser_ops :: "parser_op list \<Rightarrow> EthParser \<Rightarrow> EthParser" where
  "run_parser_ops [] p = p"
| "run_parser_ops (x # xs) p = run_parser_ops xs (apply_parser_op x p)"

section \<open>The test fixture\<close>

text \<open>
  \<open>mockClient\<close> of parser_test.go: \<open>BlockNumber\<close> answers the field \<open>latestBlock\<close>,
  \<open>GetBlockByNumber\<close> reads the Go map \<open>blocks\<close>, whose zero value at a missing key is
  the empty \<open>BlockResponse\<close>; neither fails. \<open>mc\<close> is the fixture of \<open>TestParser\<close>.
\<close>

record mockClient =
  latestBlock :: string
  blocks :: "int64 \<rightharpoonup> BlockResponse"

definition zero_BlockResponse :: BlockResponse where
  "zero_BlockResponse =
     \<lparr>Jsonrpc = [], ID = 0, Result = \<lparr>Number = [], blk_Hash = [], Transactions = []\<rparr>\<rparr>"

definition mock_BlockNumber :: "mockClient \<Rightarrow> string \<times> error option" where
  "mock_BlockNumber m = (latestBlock m, None)"

definition mock_GetBlockByNumber :: "mockClient \<Rightarrow> int64 \<Rightarrow> BlockResponse \<times> error option" where
  "mock_GetBlockByNumber m blockNum =
     ((case blocks m blockNum of None \<Rightarrow> zero_BlockResponse | Some b \<Rightarrow> b), None)"

definition mock_client :: "mockClient \<Rightarrow> JSONRPCClient" where
  "mock_client m =
     \<lparr>BlockNumber = mock_BlockNumber m, GetBlockByNumber = mock_GetBlockByNumber m\<rparr>"

definition mc :: mockClient where
  "mc = \<lparr>latestBlock = ''0x3'',
          blocks = [
            1 \<mapsto> \<lparr>Jsonrpc = [], ID = 0, Result =
                   \<lparr>Number = ''0x1'', blk_Hash = ''0xblock1'', Transactions =
                      [\<lparr>raw_Hash = ''0xtx1'', raw_From = ''0xABCDEF'', raw_To = ''0x123'',
                          raw_Value = ''0x10''\<rparr>,
                       \<lparr>raw_Hash = ''0xtx2'', raw_From = ''0x555'', raw_To = ''0x666'',
                          raw_Value = ''0x20''\<rparr>]\<rparr>\<rparr>,
            2 \<mapsto> \<lparr>Jsonrpc = [], ID = 0, Result =
                   \<lparr>Number = ''0x2'', blk_Hash = ''0xblock2'', Transactions =
                      [\<lparr>raw_Hash = ''0xtx3'', raw_From = ''0x123'', raw_To = ''0xABCDEF'',
                          raw_Value = ''0x15''\<rparr>]\<rparr>\<rparr>,
            3 \<mapsto> \<lparr>Jsonrpc = [], ID = 0, Result =
                   \<lparr>Number = ''0x3'', blk_Hash = ''0xblock3'', Transactions = []\<rparr>\<rparr>]\<rparr>"

definition tx1 :: Transaction where
  "tx1 = \<lparr>Hash = ''0xtx1'', From = ''0xABCDEF'', To = ''0x123'', Value = ''0x10'', Block = 1\<rparr>"

definition tx3 :: Transaction where
  "tx3 = \<lparr>Hash = ''0xtx3'', From = ''0x123'', To = ''0xABCDEF'', Value = ''0x15'', Block = 2\<rparr>"

definition test_parser :: EthParser where
  "test_parser = snd (P_Subscribe ''0x123'' (NewEthParser NewMemoryStore))"

text \<open>
  Three clients that fail, one at each place where \<open>processNextBlock\<close> can return an
  error: \<open>down_client\<close> fails every call, as \<open>RPCClient\<close> does when the request fails
  (it returns the zero value with the error); \<open>bad_hex_client\<close> reports a height that is
  not hexadecimal; \<open>no_block_client\<close> reports height 3 and fails to fetch any block.
\<close>

definition down_client :: JSONRPCClient where
  "down_client =
     \<lparr>BlockNumber = ([], Some (ClientError ''HTTP request error'')),
      GetBlockByNumber =
        (\<lambda>n. (zero_BlockResponse, Some (ClientError ''GetBlockByNumber request failed'')))\<rparr>"

definition bad_hex_client :: JSONRPCClient where
  "bad_hex_client = mock_client \<lparr>latestBlock = ''0xzz'', blocks = Map.empty\<rparr>"

definition no_block_client :: JSONRPCClient where
  "no_block_client =
     \<lparr>BlockNumber = (''0x3'', None),
      GetBlockByNumber =
        (\<lambda>n. (zero_BlockResponse, Some (ClientError ''GetBlockByNumber request failed'')))\<rparr>"

text \<open>The parser of the test after its three blocks, and a transaction from an address
  to itself.\<close>

definition parser_at_3 :: EthParser where
  "parser_at_3 =
     \<lparr>store = \<lparr>CurrentBlock = 3, subscribed = [''0x123'' \<mapsto> True],
                transactions = [''0x123'' \<mapsto> [tx1, tx3]]\<rparr>,
      parseRunning = False\<rparr>"

definition tx_self :: Transaction where
  "tx_self = \<lparr>Hash = ''0xself'', From = ''0x123'', To = ''0x123'', Value = ''0x1'', Block = 4\<rparr>"

text \<open>
  A hex digit, for stating what \<open>hexToInt64\<close> does on strings of hex digits, and a
  block whose self-reported number is not hexadecimal.
\<close>

definition is_hex_digit :: "char \<Rightarrow> bool" where
  "is_hex_digit ch = (ch \<in> set ''0123456789abcdefABCDEF'')"

definition bad_number_block :: BlockResponse where
  "bad_number_block =
     \<lparr>Jsonrpc = ''2.0'', ID = 1, Result =
        \<lparr>Number = ''latest'', blk_Hash = ''0xblock7'', Transactions =
           [\<lparr>raw_Hash = ''0xtx7'', raw_From = ''0x123'', raw_To = ''0x666'',
               raw_Value = ''0x7''\<rparr>]\<rparr>\<rparr>"

section \<open>Slices on a heap: what GetTransactions allocates\<close>

text \<open>
  A Go slice refers to a backing array, and two slices on one array share its elements.
  To say that \<open>GetTransactions\<close> returns a copy, the slices of the store are put on a
  heap of arrays: \<open>arrays\<close> gives the contents of the array at an address, \<open>lim\<close> is the
  next address that is free. A slice is its array and its length; its capacity is the
  length of the array. \<open>HeapStore\<close> is \<open>MemoryStore\<close> with the map \<open>transactions\<close>
  holding slices.

  \<open>make_slice n\<close> is \<open>make([]Transaction, n)\<close>: a new array of \<open>n\<close> zero values.
  \<open>copy_slice dst src\<close> is \<open>copy(dst, src)\<close>: it writes the first
  \<open>min(len(dst), len(src))\<close> elements of \<open>src\<close> over those of \<open>dst\<close>.
  \<open>H_GetTransactions\<close> follows \<open>GetTransactions\<close> line by line; the literal
  \<open>[]Transaction{}\<close> is a new slice of length 0. It reads the store and returns the
  slice and the heap. \<open>abs_store\<close> reads a heap store back as a \<open>MemoryStore\<close> of
  values. \<open>wf_store\<close> says that every slice of the store lies on an allocated array and
  within it.
\<close>

type_synonym addr = nat

record slice =
  s_array :: addr
  s_len :: nat

record go_heap =
  arrays :: "addr \<Rightarrow> Transaction list"
  lim :: addr

record HeapStore =
  h_CurrentBlock :: go_int
  h_subscribed :: "string \<rightharpoonup> bool"
  h_transactions :: "string \<rightharpoonup> slice"

definition zero_Transaction :: Transaction where
  "zero_Transaction = \<lparr>Hash = [], From = [], To = [], Value = [], Block = 0\<rparr>"

definition elems :: "go_heap \<Rightarrow> slice \<Rightarrow> Transaction list" where
  "elems h s = take (s_len s) (arrays h (s_array s))"

definition make_slice :: "nat \<Rightarrow> go_heap \<Rightarrow> slice \<times> go_heap" where
  "make_slice n h =
     (\<lparr>s_array = lim h, s_len = n\<rparr>,
      h\<lparr>arrays := (arrays h)(lim h := replicate n zero_Transaction), lim := lim h + 1\<rparr>)"

definition copy_slice :: "slice \<Rightarrow> slice \<Rightarrow> go_heap \<Rightarrow> go_heap" where
  "copy_slice dst src h =
     (let k = min (s_len dst) (s_len src)
      in h\<lparr>arrays := (arrays h)(s_array dst :=
              take k (elems h src) @ drop k (arrays h (s_array dst)))\<rparr>)"

definition H_GetTransactions :: "HeapStore \<Rightarrow> string \<Rightarrow> go_heap \<Rightarrow> slice \<times> go_heap" where
  "H_GetTransactions m address h =
     (case h_transactions m address of
        None \<Rightarrow> make_slice 0 h
      | Some txs \<Rightarrow>
          (let (cp, h1) = make_slice (s_len txs) h;
               h2 = copy_slice cp txs h1
           in (cp, h2)))"

definition abs_store :: "go_heap \<Rightarrow> HeapStore \<Rightarrow> MemoryStore" where
  "abs_store h m =
     \<lparr>CurrentBlock = h_CurrentBlock m,
      subscribed = h_subscribed m,
      transactions = (\<lambda>a. map_option (elems h) (h_transactions m a))\<rparr>"

definition wf_store :: "go_heap \<Rightarrow> HeapStore \<Rightarrow> bool" where
  "wf_store h m =
     (\<forall>a s. h_transactions m a = Some s \<longrightarrow>
        s_array s < lim h \<and> s_len s \<le> length (arrays h (s_array s)))"

text \<open>A heap store with the two transactions of the test at \<open>0x123\<close>, on an array of
  capacity 4.\<close>

definition heap_after_test :: go_heap where
  "heap_after_test =
     \<lparr>arrays = (\<lambda>a. [])(0 := [tx1, tx3, zero_Transaction, zero_Transaction]), lim = 1\<rparr>"

definition store_after_test :: HeapStore where
  "store_after_test =
     \<lparr>h_CurrentBlock = 3, h_subscribed = [''0x123'' \<mapsto> True],
      h_transactions = [''0x123'' \<mapsto> \<lparr>s_array = 0, s_len = 2\<rparr>]\<rparr>"

section \<open>Properties\<close>

subsection \<open>The store\<close>

lemma sub_get_apply_op_mono: "sub_get m A \<Longrightarrow> sub_get (apply_op x m) A"
  by (cases x) (auto simp: sub_get_def Subscribe_def AddTransaction_def SetCurrentBlock_def)

lemma sub_get_run_ops_mono: "sub_get m A \<Longrightarrow> sub_get (run_ops ops m) A"
  by (induction ops arbitrary: m) (simp_all add: sub_get_apply_op_mono)

lemma sub_get_apply_op_other:
  "\<not> sub_get m A \<Longrightarrow> x \<noteq> OpSubscribe A \<Longrightarrow> \<not> sub_get (apply_op x m) A"
  by (cases x) (auto simp: sub_get_def Subscribe_def AddTransaction_def SetCurrentBlock_def)

lemma sub_get_run_ops_other:
  "\<not> sub_get m A \<Longrightarrow> OpSubscribe A \<notin> set ops \<Longrightarrow> \<not> sub_get (run_ops ops m) A"
proof (induction ops arbitrary: m)
  case Nil
  then show ?case by simp
next
  case (Cons x xs)
  from Cons.prems have "x \<noteq> OpSubscribe A" and rest: "OpSubscribe A \<notin> set xs" by auto
  with Cons.prems(1) have "\<not> sub_get (apply_op x m) A" by (simp add: sub_get_apply_op_other)
  with rest show ?case by (simp add: Cons.IH)
qed

lemma sub_get_after_Subscribe: "sub_get (snd (Subscribe A m)) A"
  by (simp add: Subscribe_def sub_get_def)

text \<open>
  Claim C3. On a store made by \<open>NewMemoryStore\<close> and after any run of store operations
  that does not subscribe \<open>A\<close>, the call \<open>Subscribe A\<close> returns true and leaves the
  empty sequence at \<open>A\<close>; after that, whatever operations follow, every call
  \<open>Subscribe A\<close> returns false and changes nothing.
\<close>

theorem Subscribe_first_then_never:
  "OpSubscribe A \<notin> set ops1 \<Longrightarrow>
     fst (Subscribe A (run_ops ops1 NewMemoryStore)) = True \<and>
     transactions (snd (Subscribe A (run_ops ops1 NewMemoryStore))) A = Some [] \<and>
     (\<forall>ops2. fst (Subscribe A (run_ops ops2 (snd (Subscribe A (run_ops ops1 NewMemoryStore))))) = False \<and>
        snd (Subscribe A (run_ops ops2 (snd (Subscribe A (run_ops ops1 NewMemoryStore))))) =
          run_ops ops2 (snd (Subscribe A (run_ops ops1 NewMemoryStore))))"
proof -
  assume a: "OpSubscribe A \<notin> set ops1"
  have "\<not> sub_get NewMemoryStore A" by (simp add: NewMemoryStore_def sub_get_def)
  with a have n: "\<not> sub_get (run_ops ops1 NewMemoryStore) A" by (simp add: sub_get_run_ops_other)
  have later: "sub_get (run_ops ops2 (snd (Subscribe A (run_ops ops1 NewMemoryStore)))) A" for ops2
    by (rule sub_get_run_ops_mono) (rule sub_get_after_Subscribe)
  from n have "fst (Subscribe A (run_ops ops1 NewMemoryStore)) = True"
    and "transactions (snd (Subscribe A (run_ops ops1 NewMemoryStore))) A = Some []"
    by (simp_all add: Subscribe_def)
  moreover from later have "fst (Subscribe A (run_ops ops2 (snd (Subscribe A (run_ops ops1 NewMemoryStore))))) = False \<and>
        snd (Subscribe A (run_ops ops2 (snd (Subscribe A (run_ops ops1 NewMemoryStore))))) =
          run_ops ops2 (snd (Subscribe A (run_ops ops1 NewMemoryStore)))" for ops2
    by (simp add: Subscribe_def)
  ultimately show ?thesis by blast
qed

theorem Subscribe_first_then_never_witness:
  "OpSubscribe ''0x1234'' \<notin> set [OpSubscribe ''0x5678'', OpGetCurrentBlock] \<and>
   fst (Subscribe ''0x1234'' (run_ops [OpSubscribe ''0x5678'', OpGetCurrentBlock] NewMemoryStore)) = True \<and>
   fst (Subscribe ''0x1234'' (run_ops [OpAddTransaction ''0x1234'' tx_abc, OpSubscribe ''0x1234'']
      (snd (Subscribe ''0x1234'' (run_ops [OpSubscribe ''0x5678'', OpGetCurrentBlock] NewMemoryStore))))) = False"
proof -
  have h: "OpSubscribe ''0x1234'' \<notin> set [OpSubscribe ''0x5678'', OpGetCurrentBlock]" by simp
  from Subscribe_first_then_never [OF h] show ?thesis using h by blast
qed

text \<open>
  Claim C4. \<open>AddTransaction A tx\<close> on a store where \<open>A\<close> is not subscribed returns
  the store unchanged; where \<open>A\<close> is subscribed it puts \<open>tx\<close> at the end of the sequence
  of \<open>A\<close> and changes nothing else: not the sequence of another address, not the
  subscriptions, not the cursor.
\<close>

theorem AddTransaction_only_if_subscribed:
  "(\<not> IsSubscribed m A \<longrightarrow> AddTransaction A tx m = m) \<and>
   (IsSubscribed m A \<longrightarrow>
      AddTransaction A tx m = m\<lparr>transactions := (transactions m)(A \<mapsto> txs_get m A @ [tx])\<rparr> \<and>
      GetTransactions (AddTransaction A tx m) A = GetTransactions m A @ [tx] \<and>
      (\<forall>B. B \<noteq> A \<longrightarrow> transactions (AddTransaction A tx m) B = transactions m B) \<and>
      subscribed (AddTransaction A tx m) = subscribed m \<and>
      CurrentBlock (AddTransaction A tx m) = CurrentBlock m)"
  by (simp add: IsSubscribed_def AddTransaction_def GetTransactions_def txs_get_def)

theorem AddTransaction_only_if_subscribed_witness:
  "\<not> IsSubscribed NewMemoryStore ''0x5678'' \<and>
   AddTransaction ''0x5678'' tx_abc NewMemoryStore = NewMemoryStore \<and>
   IsSubscribed (snd (Subscribe ''0x1234'' NewMemoryStore)) ''0x1234'' \<and>
   GetTransactions (AddTransaction ''0x1234'' tx_abc (snd (Subscribe ''0x1234'' NewMemoryStore))) ''0x1234''
     = GetTransactions (snd (Subscribe ''0x1234'' NewMemoryStore)) ''0x1234'' @ [tx_abc] \<and>
   GetTransactions (AddTransaction ''0x1234'' tx_abc (snd (Subscribe ''0x1234'' NewMemoryStore))) ''0x1234''
     = [tx_abc]"
proof -
  have h1: "\<not> IsSubscribed NewMemoryStore ''0x5678''"
    by (simp add: IsSubscribed_def sub_get_def NewMemoryStore_def)
  have h2: "IsSubscribed (snd (Subscribe ''0x1234'' NewMemoryStore)) ''0x1234''"
    by (simp add: IsSubscribed_def sub_get_def NewMemoryStore_def Subscribe_def)
  have e: "GetTransactions (snd (Subscribe ''0x1234'' NewMemoryStore)) ''0x1234'' = []"
    by (simp add: GetTransactions_def sub_get_def NewMemoryStore_def Subscribe_def)
  from AddTransaction_only_if_subscribed [of NewMemoryStore "''0x5678''" tx_abc] h1
  have a: "AddTransaction ''0x5678'' tx_abc NewMemoryStore = NewMemoryStore" by blast
  from AddTransaction_only_if_subscribed [of "snd (Subscribe ''0x1234'' NewMemoryStore)" "''0x1234''" tx_abc] h2
  have b: "GetTransactions (AddTransaction ''0x1234'' tx_abc (snd (Subscribe ''0x1234'' NewMemoryStore))) ''0x1234''
     = GetTransactions (snd (Subscribe ''0x1234'' NewMemoryStore)) ''0x1234'' @ [tx_abc]" by blast
  from b e have c: "GetTransactions (AddTransaction ''0x1234'' tx_abc (snd (Subscribe ''0x1234'' NewMemoryStore))) ''0x1234''
     = [tx_abc]" by simp
  from h1 a h2 b c show ?thesis by blast
qed

subsection \<open>Helper facts about ingestion\<close>

lemma sint_succ_of_sless:
  fixes c h :: "64 word"
  assumes "c <s h"
  shows "sint (c + 1) = sint c + 1"
proof -
  from assms have "sint c < sint h" by (simp add: word_sless_alt)
  moreover have "sint h < 2 ^ 63" using sint_lt [of h] by simp
  ultimately have up: "sint c + 1 < 2 ^ 63" by linarith
  have lo: "- (2 ^ 63) \<le> sint c" using sint_ge [of c] by simp
  have "sint (c + 1) = signed_take_bit 63 (sint c + 1)"
    by (simp add: sint_word_ariths)
  also have "\<dots> = sint c + 1"
    using up lo by (simp add: signed_take_bit_int_eq_self)
  finally show ?thesis .
qed

lemma subscribed_AddTransaction [simp]: "subscribed (AddTransaction B tx m) = subscribed m"
  by (simp add: AddTransaction_def)

lemma CurrentBlock_AddTransaction [simp]: "CurrentBlock (AddTransaction B tx m) = CurrentBlock m"
  by (simp add: AddTransaction_def)

lemma sub_get_AddTransaction [simp]: "sub_get (AddTransaction B tx m) A = sub_get m A"
  by (simp add: sub_get_def)

lemma GetTransactions_AddTransaction:
  "GetTransactions (AddTransaction B tx m) A =
     GetTransactions m A @ (if B = A \<and> sub_get m A then [tx] else [])"
  by (simp add: AddTransaction_def GetTransactions_def txs_get_def)

lemma subscribed_storeTransactions [simp]: "subscribed (storeTransactions txs m) = subscribed m"
  by (induction txs arbitrary: m) (simp_all add: Let_def)

lemma CurrentBlock_storeTransactions [simp]:
  "CurrentBlock (storeTransactions txs m) = CurrentBlock m"
  by (induction txs arbitrary: m) (simp_all add: Let_def)

lemma sub_get_storeTransactions [simp]: "sub_get (storeTransactions txs m) A = sub_get m A"
  by (simp add: sub_get_def)

lemma storeTransactions_append:
  "storeTransactions (xs @ ys) m = storeTransactions ys (storeTransactions xs m)"
  by (induction xs arbitrary: m) (simp_all add: Let_def)

lemma GetTransactions_storeTransactions:
  "GetTransactions (storeTransactions txs m) A =
     GetTransactions m A @
       (if sub_get m A
        then concat (map (\<lambda>tx. (if From tx = A then [tx] else []) @
                               (if To tx = A then [tx] else [])) txs)
        else [])"
proof (induction txs arbitrary: m)
  case Nil
  show ?case by simp
next
  case (Cons tx txs)
  show ?case
    by (simp add: Cons.IH Let_def IsSubscribed_def GetTransactions_AddTransaction)
qed

lemma storeTransactions_delta:
  "\<exists>new. GetTransactions (storeTransactions txs m) A = GetTransactions m A @ new \<and>
     (\<forall>tx\<in>set new. A = From tx \<or> A = To tx)"
  by (auto simp: GetTransactions_storeTransactions split: if_splits)

lemma processNextBlock_cases:
  "processNextBlock client p = (r, p') \<Longrightarrow>
     p' = p \<or> (\<exists>txs. r = None \<and> CurrentBlock (store p) <s fst (hexToInt64 (fst (BlockNumber client))) \<and>
        p' = p\<lparr>store := SetCurrentBlock (CurrentBlock (store p) + 1) (storeTransactions txs (store p))\<rparr>)"
  by (auto simp: processNextBlock_def GetCurrentBlock_def Let_def
        split: prod.splits option.splits if_splits)

lemma processNextBlock_delta:
  "\<exists>new. GetTransactions (store (snd (processNextBlock client p))) A =
        GetTransactions (store p) A @ new \<and> (\<forall>tx\<in>set new. A = From tx \<or> A = To tx)"
proof -
  obtain r p' where e: "processNextBlock client p = (r, p')" by (cases "processNextBlock client p")
  from processNextBlock_cases [OF e] show ?thesis
  proof
    assume "p' = p" with e show ?thesis by simp
  next
    assume "\<exists>txs. r = None \<and> CurrentBlock (store p) <s fst (hexToInt64 (fst (BlockNumber client))) \<and>
        p' = p\<lparr>store := SetCurrentBlock (CurrentBlock (store p) + 1) (storeTransactions txs (store p))\<rparr>"
    then obtain txs where
      p': "p' = p\<lparr>store := SetCurrentBlock (CurrentBlock (store p) + 1) (storeTransactions txs (store p))\<rparr>"
      by blast
    have "GetTransactions (store p') A = GetTransactions (storeTransactions txs (store p)) A"
      by (simp add: p' SetCurrentBlock_def GetTransactions_def)
    with storeTransactions_delta [of txs "store p" A] e show ?thesis by simp
  qed
qed


text \<open>Unfolding sets for evaluating concrete runs.\<close>

lemmas hex_defs = hexToInt64_def ParseInt16_def ParseUint16_def digit_val_def lower_def cutoff16_def
  maxUint64_def maxVal64_def
  word_le_def word_less_def word_sle_eq
lemmas mock_defs = mock_client_def mock_BlockNumber_def mock_GetBlockByNumber_def mc_def zero_BlockResponse_def
lemmas store_defs = NewMemoryStore_def Subscribe_def sub_get_def txs_get_def IsSubscribed_def
  AddTransaction_def GetTransactions_def GetCurrentBlock_def SetCurrentBlock_def
lemmas parser_defs = NewEthParser_def P_Subscribe_def P_GetTransactions_def P_GetCurrentBlock_def
  parseTransactions_def processNextBlock_def test_parser_def hexToInt64OrZero_def

subsection \<open>The cursor\<close>

lemma processNextBlock_error_unchanged:
  "fst (processNextBlock client p) \<noteq> None \<Longrightarrow> snd (processNextBlock client p) = p"
  by (auto simp: processNextBlock_def Let_def split: prod.splits option.splits if_splits)

lemma processNextBlock_success_advance:
  assumes "fst (processNextBlock client p) = None"
    and "BlockNumber client = (hex, None)" and "hexToInt64 hex = (h, None)"
    and "CurrentBlock (store p) <s h"
  shows "store (snd (processNextBlock client p)) =
     SetCurrentBlock (CurrentBlock (store p) + 1)
       (storeTransactions (parseTransactions (fst (GetBlockByNumber client (CurrentBlock (store p) + 1))))
          (store p))"
  using assms
  by (auto simp: processNextBlock_def GetCurrentBlock_def Let_def word_sless_alt word_sle_eq
        split: prod.splits option.splits if_splits)

lemma processNextBlock_at_tip:
  assumes "BlockNumber client = (hex, None)" and "hexToInt64 hex = (h, None)"
    and "h \<le>s CurrentBlock (store p)"
  shows "processNextBlock client p = (None, p)"
  using assms by (simp add: processNextBlock_def GetCurrentBlock_def)

lemma processNextBlock_cursor_bounds:
  "sint (CurrentBlock (store p)) \<le> sint (CurrentBlock (store (snd (processNextBlock client p)))) \<and>
   sint (CurrentBlock (store (snd (processNextBlock client p)))) \<le> sint (CurrentBlock (store p)) + 1"
proof -
  obtain r p' where e: "processNextBlock client p = (r, p')" by (cases "processNextBlock client p")
  from processNextBlock_cases [OF e] show ?thesis
  proof
    assume "p' = p" with e show ?thesis by simp
  next
    assume "\<exists>txs. r = None \<and> CurrentBlock (store p) <s fst (hexToInt64 (fst (BlockNumber client))) \<and>
        p' = p\<lparr>store := SetCurrentBlock (CurrentBlock (store p) + 1) (storeTransactions txs (store p))\<rparr>"
    then obtain txs where lt: "CurrentBlock (store p) <s fst (hexToInt64 (fst (BlockNumber client)))"
      and p': "p' = p\<lparr>store := SetCurrentBlock (CurrentBlock (store p) + 1) (storeTransactions txs (store p))\<rparr>"
      by blast
    have "CurrentBlock (store p') = CurrentBlock (store p) + 1"
      by (simp add: p' SetCurrentBlock_def)
    with sint_succ_of_sless [OF lt] e show ?thesis by simp
  qed
qed

text \<open>
  Claim C1. One call of \<open>processNextBlock\<close> on a store with cursor \<open>c\<close>: when it
  returns no error and the chain tip \<open>h\<close> is above \<open>c\<close>, the cursor afterwards is
  \<open>c + 1\<close> (as a signed 64-bit value too: the addition does not wrap); when \<open>c \<ge> h\<close>
  the call changes nothing; when it returns an error the cursor is the same. In every
  case the cursor does not decrease and grows by at most one.
\<close>

theorem processNextBlock_cursor:
  "(fst (processNextBlock client p) = None \<and> BlockNumber client = (hex, None) \<and>
      hexToInt64 hex = (h, None) \<and> CurrentBlock (store p) <s h \<longrightarrow>
        CurrentBlock (store (snd (processNextBlock client p))) = CurrentBlock (store p) + 1 \<and>
        sint (CurrentBlock (store (snd (processNextBlock client p)))) =
          sint (CurrentBlock (store p)) + 1) \<and>
   (BlockNumber client = (hex, None) \<and> hexToInt64 hex = (h, None) \<and>
      h \<le>s CurrentBlock (store p) \<longrightarrow>
        CurrentBlock (store (snd (processNextBlock client p))) = CurrentBlock (store p)) \<and>
   (fst (processNextBlock client p) \<noteq> None \<longrightarrow>
        CurrentBlock (store (snd (processNextBlock client p))) = CurrentBlock (store p)) \<and>
   sint (CurrentBlock (store p)) \<le> sint (CurrentBlock (store (snd (processNextBlock client p)))) \<and>
   sint (CurrentBlock (store (snd (processNextBlock client p)))) \<le> sint (CurrentBlock (store p)) + 1"
proof -
  have a: "CurrentBlock (store (snd (processNextBlock client p))) = CurrentBlock (store p) + 1 \<and>
        sint (CurrentBlock (store (snd (processNextBlock client p)))) =
          sint (CurrentBlock (store p)) + 1"
    if "fst (processNextBlock client p) = None" "BlockNumber client = (hex, None)"
      "hexToInt64 hex = (h, None)" "CurrentBlock (store p) <s h"
    using processNextBlock_success_advance [OF that] sint_succ_of_sless [OF that(4)]
    by (simp add: SetCurrentBlock_def)
  have b: "CurrentBlock (store (snd (processNextBlock client p))) = CurrentBlock (store p)"
    if "BlockNumber client = (hex, None)" "hexToInt64 hex = (h, None)" "h \<le>s CurrentBlock (store p)"
    using processNextBlock_at_tip [OF that] by simp
  have c: "CurrentBlock (store (snd (processNextBlock client p))) = CurrentBlock (store p)"
    if "fst (processNextBlock client p) \<noteq> None"
    using processNextBlock_error_unchanged [OF that] by simp
  from a b c processNextBlock_cursor_bounds [of p client] show ?thesis by blast
qed

lemma step1: "processNextBlock (mock_client mc) test_parser =
   (None, \<lparr>store = \<lparr>CurrentBlock = 1, subscribed = [''0x123'' \<mapsto> True],
      transactions = [''0x123'' \<mapsto> [tx1]]\<rparr>, parseRunning = False\<rparr>)"
  by (simp add: hex_defs mock_defs store_defs parser_defs Let_def tx1_def)

lemma step2: "processNextBlock (mock_client mc)
     \<lparr>store = \<lparr>CurrentBlock = 1, subscribed = [''0x123'' \<mapsto> True],
      transactions = [''0x123'' \<mapsto> [tx1]]\<rparr>, parseRunning = False\<rparr> =
   (None, \<lparr>store = \<lparr>CurrentBlock = 2, subscribed = [''0x123'' \<mapsto> True],
      transactions = [''0x123'' \<mapsto> [tx1, tx3]]\<rparr>, parseRunning = False\<rparr>)"
  by (simp add: hex_defs mock_defs store_defs parser_defs Let_def tx3_def)

lemma step3: "processNextBlock (mock_client mc)
     \<lparr>store = \<lparr>CurrentBlock = 2, subscribed = [''0x123'' \<mapsto> True],
      transactions = [''0x123'' \<mapsto> [tx1, tx3]]\<rparr>, parseRunning = False\<rparr> =
   (None, \<lparr>store = \<lparr>CurrentBlock = 3, subscribed = [''0x123'' \<mapsto> True],
      transactions = [''0x123'' \<mapsto> [tx1, tx3]]\<rparr>, parseRunning = False\<rparr>)"
  by (simp add: hex_defs mock_defs store_defs parser_defs Let_def)

text \<open>
  Claim C2. The scenario of \<open>TestParser\<close>: a new store, \<open>0x123\<close> subscribed, three
  calls of \<open>processNextBlock\<close> against the mock client with latest height 3. Each call
  returns no error; afterwards the cursor is 3 and \<open>GetTransactions\<close> of \<open>0x123\<close> is
  \<open>[tx1, tx3]\<close>, in that order.
\<close>

theorem test_scenario:
  "(let (r0, p0) = P_Subscribe ''0x123'' (NewEthParser NewMemoryStore);
        (e1, p1) = processNextBlock (mock_client mc) p0;
        (e2, p2) = processNextBlock (mock_client mc) p1;
        (e3, p3) = processNextBlock (mock_client mc) p2
    in r0 = True \<and> e1 = None \<and> e2 = None \<and> e3 = None \<and>
       P_GetCurrentBlock p3 = 3 \<and>
       P_GetTransactions p3 ''0x123'' = [tx1, tx3])"
proof -
  have s0: "P_Subscribe ''0x123'' (NewEthParser NewMemoryStore) = (True, test_parser)"
    by (simp add: test_parser_def P_Subscribe_def Subscribe_def sub_get_def NewMemoryStore_def
        NewEthParser_def)
  show ?thesis
    by (simp add: s0 step1 step2 step3 P_GetCurrentBlock_def P_GetTransactions_def
        GetCurrentBlock_def GetTransactions_def)
qed

lemma hexToInt64_0x3: "hexToInt64 ''0x3'' = (3, None)"
  by (simp add: hex_defs)

theorem processNextBlock_cursor_witness:
  "fst (processNextBlock (mock_client mc) test_parser) = None \<and>
   BlockNumber (mock_client mc) = (''0x3'', None) \<and>
   hexToInt64 ''0x3'' = (3, None) \<and>
   CurrentBlock (store test_parser) <s 3 \<and>
   CurrentBlock (store (snd (processNextBlock (mock_client mc) test_parser))) =
     CurrentBlock (store test_parser) + 1 \<and>
   3 \<le>s CurrentBlock (store parser_at_3) \<and>
   CurrentBlock (store (snd (processNextBlock (mock_client mc) parser_at_3))) =
     CurrentBlock (store parser_at_3) \<and>
   fst (processNextBlock down_client test_parser) \<noteq> None \<and>
   CurrentBlock (store (snd (processNextBlock down_client test_parser))) =
     CurrentBlock (store test_parser)"
proof -
  have h1: "fst (processNextBlock (mock_client mc) test_parser) = None"
    by (simp add: step1)
  have h2: "BlockNumber (mock_client mc) = (''0x3'', None)"
    by (simp add: mock_defs)
  have h3: "hexToInt64 ''0x3'' = (3, None)"
    by (rule hexToInt64_0x3)
  have h4: "CurrentBlock (store test_parser) <s 3"
    by (simp add: parser_defs store_defs word_sless_alt)
  have h5: "3 \<le>s CurrentBlock (store parser_at_3)"
    by (simp add: parser_at_3_def)
  have h6: "fst (processNextBlock down_client test_parser) \<noteq> None"
    by (simp add: processNextBlock_def down_client_def)
  from processNextBlock_cursor [of "mock_client mc" test_parser "''0x3''" 3] h1 h2 h3 h4
  have c1: "CurrentBlock (store (snd (processNextBlock (mock_client mc) test_parser))) =
     CurrentBlock (store test_parser) + 1" by blast
  from processNextBlock_cursor [of "mock_client mc" parser_at_3 "''0x3''" 3] h2 h3 h5
  have c2: "CurrentBlock (store (snd (processNextBlock (mock_client mc) parser_at_3))) =
     CurrentBlock (store parser_at_3)" by blast
  from processNextBlock_cursor [of down_client test_parser] h6
  have c3: "CurrentBlock (store (snd (processNextBlock down_client test_parser))) =
     CurrentBlock (store test_parser)" by blast
  from h1 h2 h3 h4 h5 h6 c1 c2 c3 show ?thesis by blast
qed

subsection \<open>Errors leave the state as it was\<close>

text \<open>
  Claim C6. If \<open>BlockNumber\<close> fails, or its answer does not parse as a hex number, or
  the call \<open>GetBlockByNumber\<close> for block \<open>c + 1\<close> (made when the tip is above the cursor
  \<open>c\<close>) fails, then \<open>processNextBlock\<close> returns an error and the parser, with its
  store, is exactly as before the call.
\<close>

theorem processNextBlock_error_no_change:
  "snd (BlockNumber client) \<noteq> None \<or>
   (snd (BlockNumber client) = None \<and> snd (hexToInt64 (fst (BlockNumber client))) \<noteq> None) \<or>
   (snd (BlockNumber client) = None \<and> hexToInt64 (fst (BlockNumber client)) = (h, None) \<and>
      CurrentBlock (store p) <s h \<and>
      snd (GetBlockByNumber client (CurrentBlock (store p) + 1)) \<noteq> None)
   \<Longrightarrow> \<exists>e. processNextBlock client p = (Some e, p)"
  by (auto simp: processNextBlock_def GetCurrentBlock_def Let_def hexToInt64_def
        word_sless_alt word_sle_eq
        split: prod.splits option.splits if_splits)

theorem processNextBlock_error_no_change_witness:
  "snd (BlockNumber down_client) \<noteq> None \<and>
   (\<exists>e. processNextBlock down_client test_parser = (Some e, test_parser)) \<and>
   snd (BlockNumber bad_hex_client) = None \<and>
   snd (hexToInt64 (fst (BlockNumber bad_hex_client))) \<noteq> None \<and>
   (\<exists>e. processNextBlock bad_hex_client test_parser = (Some e, test_parser)) \<and>
   snd (BlockNumber no_block_client) = None \<and>
   hexToInt64 (fst (BlockNumber no_block_client)) = (3, None) \<and>
   CurrentBlock (store test_parser) <s 3 \<and>
   snd (GetBlockByNumber no_block_client (CurrentBlock (store test_parser) + 1)) \<noteq> None \<and>
   (\<exists>e. processNextBlock no_block_client test_parser = (Some e, test_parser))"
proof -
  have a1: "snd (BlockNumber down_client) \<noteq> None"
    by (simp add: down_client_def)
  have b1: "snd (BlockNumber bad_hex_client) = None"
    by (simp add: bad_hex_client_def mock_client_def mock_BlockNumber_def)
  have b2: "snd (hexToInt64 (fst (BlockNumber bad_hex_client))) \<noteq> None"
    by (simp add: bad_hex_client_def mock_client_def mock_BlockNumber_def hex_defs)
  have c1: "snd (BlockNumber no_block_client) = None"
    by (simp add: no_block_client_def)
  have c2: "hexToInt64 (fst (BlockNumber no_block_client)) = (3, None)"
    by (simp add: no_block_client_def hexToInt64_0x3)
  have c3: "CurrentBlock (store test_parser) <s 3"
    by (simp add: parser_defs store_defs word_sless_alt)
  have c4: "snd (GetBlockByNumber no_block_client (CurrentBlock (store test_parser) + 1)) \<noteq> None"
    by (simp add: no_block_client_def)
  from a1 have r1: "\<exists>e. processNextBlock down_client test_parser = (Some e, test_parser)"
    by (rule processNextBlock_error_no_change [OF disjI1])
  from b1 b2 have r2: "\<exists>e. processNextBlock bad_hex_client test_parser = (Some e, test_parser)"
    by (intro processNextBlock_error_no_change [OF disjI2, OF disjI1] conjI)
  from c1 c2 c3 c4
  have r3: "\<exists>e. processNextBlock no_block_client test_parser = (Some e, test_parser)"
    by (intro processNextBlock_error_no_change [OF disjI2, OF disjI2] conjI)
  from a1 b1 b2 c1 c2 c3 c4 r1 r2 r3 show ?thesis by blast
qed

subsection \<open>What ingestion records\<close>

lemma GetTransactions_P_Subscribe:
  "GetTransactions (store (snd (P_Subscribe a p))) A =
     (if a = A \<and> \<not> sub_get (store p) A then [] else GetTransactions (store p) A)"
  by (simp add: P_Subscribe_def Subscribe_def GetTransactions_def)

lemma parse_loop_delta:
  "\<exists>new. GetTransactions (store (parse_loop run p)) A = GetTransactions (store p) A @ new \<and>
     (\<forall>tx\<in>set new. A = From tx \<or> A = To tx)"
proof (induction run arbitrary: p)
  case Nil
  show ?case by simp
next
  case (Cons client rest)
  obtain n1 where n1: "GetTransactions (store (snd (processNextBlock client p))) A =
        GetTransactions (store p) A @ n1" "\<forall>tx\<in>set n1. A = From tx \<or> A = To tx"
    using processNextBlock_delta [of client p A] by blast
  obtain n2 where n2: "GetTransactions (store (parse_loop rest (snd (processNextBlock client p)))) A =
        GetTransactions (store (snd (processNextBlock client p))) A @ n2"
      "\<forall>tx\<in>set n2. A = From tx \<or> A = To tx"
    using Cons.IH [of "snd (processNextBlock client p)"] by blast
  from n1 n2 have "GetTransactions (store (parse_loop (client # rest) p)) A =
      GetTransactions (store p) A @ (n1 @ n2) \<and> (\<forall>tx\<in>set (n1 @ n2). A = From tx \<or> A = To tx)"
    by auto
  then show ?case by blast
qed

lemma StartParsing_delta:
  "\<exists>new. GetTransactions (store (StartParsing run p)) A = GetTransactions (store p) A @ new \<and>
     (\<forall>tx\<in>set new. A = From tx \<or> A = To tx)"
proof (cases "parseRunning p")
  case True
  then show ?thesis by (simp add: StartParsing_def)
next
  case False
  with parse_loop_delta [of run "p\<lparr>parseRunning := True\<rparr>" A] show ?thesis
    by (simp add: StartParsing_def)
qed

lemma apply_parser_op_inv:
  assumes "\<forall>tx\<in>set (GetTransactions (store p) A). A = From tx \<or> A = To tx"
  shows "\<forall>tx\<in>set (GetTransactions (store (apply_parser_op x p)) A). A = From tx \<or> A = To tx"
proof (cases x)
  case (POpSubscribe a)
  with assms show ?thesis by (simp add: GetTransactions_P_Subscribe)
next
  case (POpGetTransactions a)
  with assms show ?thesis by simp
next
  case POpGetCurrentBlock
  with assms show ?thesis by simp
next
  case (POpProcessNextBlock client)
  with assms processNextBlock_delta [of client p A] show ?thesis by auto
next
  case (POpStartParsing run)
  with assms StartParsing_delta [of run p A] show ?thesis by auto
qed

lemma run_parser_ops_inv:
  "\<forall>tx\<in>set (GetTransactions (store p) A). A = From tx \<or> A = To tx \<Longrightarrow>
   \<forall>tx\<in>set (GetTransactions (store (run_parser_ops ops p)) A). A = From tx \<or> A = To tx"
proof (induction ops arbitrary: p)
  case Nil
  then show ?case by simp
next
  case (Cons x xs)
  from apply_parser_op_inv [OF Cons.prems, of x] show ?case by (simp add: Cons.IH)
qed

text \<open>
  Claim C5. What ingestion stores for an address \<open>A\<close> has \<open>A\<close> as its sender or its
  recipient: \<open>storeTransactions\<close> and \<open>processNextBlock\<close> keep the sequence of \<open>A\<close> as a
  prefix, and every transaction they put after it has \<open>A = From\<close> or \<open>A = To\<close>. So in
  any parser reached from a new one by its own methods (subscribing, reading, processing
  blocks, running the loop), every transaction in the sequence of \<open>A\<close> has \<open>A\<close> as its
  sender or its recipient.
\<close>

theorem ingestion_records_only_matching:
  "take (length (GetTransactions m A)) (GetTransactions (storeTransactions txs m) A) =
     GetTransactions m A \<and>
   (\<forall>tx \<in> set (drop (length (GetTransactions m A)) (GetTransactions (storeTransactions txs m) A)).
      A = From tx \<or> A = To tx) \<and>
   take (length (GetTransactions (store p) A))
      (GetTransactions (store (snd (processNextBlock client p))) A) = GetTransactions (store p) A \<and>
   (\<forall>tx \<in> set (drop (length (GetTransactions (store p) A))
         (GetTransactions (store (snd (processNextBlock client p))) A)).
      A = From tx \<or> A = To tx) \<and>
   (\<forall>tx \<in> set (P_GetTransactions (run_parser_ops ops (NewEthParser NewMemoryStore)) A).
      A = From tx \<or> A = To tx)"
proof -
  obtain n1 where n1: "GetTransactions (storeTransactions txs m) A = GetTransactions m A @ n1"
      "\<forall>tx\<in>set n1. A = From tx \<or> A = To tx"
    using storeTransactions_delta [of txs m A] by blast
  obtain n2 where n2: "GetTransactions (store (snd (processNextBlock client p))) A =
        GetTransactions (store p) A @ n2" "\<forall>tx\<in>set n2. A = From tx \<or> A = To tx"
    using processNextBlock_delta [of client p A] by blast
  have "\<forall>tx\<in>set (GetTransactions (store (NewEthParser NewMemoryStore)) A). A = From tx \<or> A = To tx"
    by (simp add: NewEthParser_def NewMemoryStore_def GetTransactions_def)
  from run_parser_ops_inv [OF this]
  have n3: "\<forall>tx \<in> set (P_GetTransactions (run_parser_ops ops (NewEthParser NewMemoryStore)) A).
      A = From tx \<or> A = To tx"
    by (simp add: P_GetTransactions_def)
  from n1 n2 n3 show ?thesis by simp
qed

theorem ingestion_records_only_matching_witness:
  "GetTransactions (store (snd (processNextBlock (mock_client mc) test_parser))) ''0x123'' = [tx1] \<and>
   drop (length (GetTransactions (store test_parser) ''0x123''))
     (GetTransactions (store (snd (processNextBlock (mock_client mc) test_parser))) ''0x123'') = [tx1] \<and>
   (''0x123'' = From tx1 \<or> ''0x123'' = To tx1) \<and>
   ''0x123'' = To tx1"
proof -
  have g: "GetTransactions (store (snd (processNextBlock (mock_client mc) test_parser))) ''0x123'' = [tx1]"
    by (simp add: step1 GetTransactions_def)
  have d: "drop (length (GetTransactions (store test_parser) ''0x123''))
     (GetTransactions (store (snd (processNextBlock (mock_client mc) test_parser))) ''0x123'') = [tx1]"
    by (simp add: g) (simp add: parser_defs store_defs)
  from ingestion_records_only_matching [of NewMemoryStore "''0x123''" "[]" test_parser "mock_client mc" "[]"]
  have "\<forall>tx \<in> set (drop (length (GetTransactions (store test_parser) ''0x123''))
         (GetTransactions (store (snd (processNextBlock (mock_client mc) test_parser))) ''0x123'')).
      ''0x123'' = From tx \<or> ''0x123'' = To tx" by blast
  with d have m: "''0x123'' = From tx1 \<or> ''0x123'' = To tx1" by simp
  have t: "''0x123'' = To tx1" by (simp add: tx1_def)
  from g d m t show ?thesis by blast
qed

subsection \<open>A transaction from an address to itself\<close>

text \<open>
  Claim C10. For a transaction \<open>tx\<close> whose sender and recipient are both the subscribed
  address \<open>A\<close>, the ingestion step puts \<open>tx\<close> twice at the end of the sequence of \<open>A\<close>:
  once for the sender's match and once for the recipient's, wherever \<open>tx\<close> stands in the
  block's list.
\<close>

theorem self_transaction_recorded_twice:
  "IsSubscribed m A \<Longrightarrow> From tx = A \<Longrightarrow> To tx = A \<Longrightarrow>
     GetTransactions (storeTransactions [tx] m) A = GetTransactions m A @ [tx, tx] \<and>
     GetTransactions (storeTransactions (pre @ [tx]) m) A =
       GetTransactions (storeTransactions pre m) A @ [tx, tx] \<and>
     (\<exists>rest. GetTransactions (storeTransactions (pre @ tx # post) m) A =
       GetTransactions (storeTransactions pre m) A @ [tx, tx] @ rest)"
proof -
  assume s: "IsSubscribed m A" and f: "From tx = A" and t: "To tx = A"
  from s have s': "sub_get m A" by (simp add: IsSubscribed_def)
  have one: "GetTransactions (storeTransactions [tx] m') A = GetTransactions m' A @ [tx, tx]"
    if "sub_get m' A" for m'
  proof -
    have "GetTransactions (storeTransactions [tx] m') A =
       GetTransactions m' A @
         (if sub_get m' A
          then concat (map (\<lambda>tx. (if From tx = A then [tx] else []) @
                                 (if To tx = A then [tx] else [])) [tx])
          else [])"
      by (rule GetTransactions_storeTransactions)
    also have "\<dots> = GetTransactions m' A @ [tx, tx]"
      using that f t by simp
    finally show ?thesis .
  qed
  from s' have pre: "sub_get (storeTransactions pre m) A" by simp
  have a: "GetTransactions (storeTransactions [tx] m) A = GetTransactions m A @ [tx, tx]"
    by (rule one [OF s'])
  have b: "GetTransactions (storeTransactions (pre @ [tx]) m) A =
       GetTransactions (storeTransactions pre m) A @ [tx, tx]"
    using one [OF pre] by (simp add: storeTransactions_append)
  have "storeTransactions ((pre @ [tx]) @ post) m = storeTransactions post (storeTransactions (pre @ [tx]) m)"
    by (rule storeTransactions_append)
  then have split: "storeTransactions (pre @ tx # post) m = storeTransactions post (storeTransactions (pre @ [tx]) m)"
    by simp
  let ?rest = "if sub_get (storeTransactions (pre @ [tx]) m) A
        then concat (map (\<lambda>tx. (if From tx = A then [tx] else []) @
                               (if To tx = A then [tx] else [])) post)
        else []"
  have "GetTransactions (storeTransactions (pre @ tx # post) m) A =
      GetTransactions (storeTransactions post (storeTransactions (pre @ [tx]) m)) A"
    by (simp only: split)
  also have "\<dots> = GetTransactions (storeTransactions (pre @ [tx]) m) A @ ?rest"
    by (rule GetTransactions_storeTransactions)
  also have "\<dots> = GetTransactions (storeTransactions pre m) A @ [tx, tx] @ ?rest"
    by (simp only: b append_assoc)
  finally have c: "\<exists>rest. GetTransactions (storeTransactions (pre @ tx # post) m) A =
       GetTransactions (storeTransactions pre m) A @ [tx, tx] @ rest" ..
  from a b c show ?thesis by blast
qed

theorem self_transaction_recorded_twice_witness:
  "IsSubscribed (store test_parser) ''0x123'' \<and> From tx_self = ''0x123'' \<and> To tx_self = ''0x123'' \<and>
   GetTransactions (storeTransactions [tx_self] (store test_parser)) ''0x123'' =
     GetTransactions (store test_parser) ''0x123'' @ [tx_self, tx_self] \<and>
   GetTransactions (storeTransactions [tx_self] (store test_parser)) ''0x123'' = [tx_self, tx_self]"
proof -
  have h1: "IsSubscribed (store test_parser) ''0x123''"
    by (simp add: parser_defs store_defs)
  have h2: "From tx_self = ''0x123''" and h3: "To tx_self = ''0x123''"
    by (simp_all add: tx_self_def)
  have e: "GetTransactions (store test_parser) ''0x123'' = []"
    by (simp add: parser_defs store_defs)
  from self_transaction_recorded_twice [OF h1 h2 h3, of "[]" "[]"]
  have a: "GetTransactions (storeTransactions [tx_self] (store test_parser)) ''0x123'' =
     GetTransactions (store test_parser) ''0x123'' @ [tx_self, tx_self]" by blast
  with e have b: "GetTransactions (storeTransactions [tx_self] (store test_parser)) ''0x123'' =
     [tx_self, tx_self]" by simp
  from h1 h2 h3 a b show ?thesis by blast
qed

subsection \<open>Starting the loop\<close>

lemma parseRunning_processNextBlock [simp]:
  "parseRunning (snd (processNextBlock client p)) = parseRunning p"
proof -
  obtain r p' where e: "processNextBlock client p = (r, p')" by (cases "processNextBlock client p")
  from processNextBlock_cases [OF e] e show ?thesis by auto
qed

lemma parseRunning_parse_loop [simp]: "parseRunning (parse_loop run p) = parseRunning p"
  by (induction run arbitrary: p) simp_all

lemma parseRunning_StartParsing: "parseRunning (StartParsing run p)"
  by (simp add: StartParsing_def)

lemma StartParsing_running: "parseRunning p \<Longrightarrow> StartParsing run p = p"
  by (simp add: StartParsing_def)

lemma parseRunning_apply_parser_op:
  "parseRunning p \<Longrightarrow> parseRunning (apply_parser_op x p)"
  by (cases x) (simp_all add: P_Subscribe_def StartParsing_def split: prod.splits)

lemma parseRunning_run_parser_ops:
  "parseRunning p \<Longrightarrow> parseRunning (run_parser_ops ops p)"
  by (induction ops arbitrary: p) (simp_all add: parseRunning_apply_parser_op)

text \<open>
  Claim C9. A new parser has \<open>parseRunning\<close> unset; \<open>StartParsing\<close> leaves it set,
  however many iterations its loop makes before the context is cancelled; no method of
  the parser unsets it; so after the first \<open>StartParsing\<close> and any run of the parser's
  methods, another \<open>StartParsing\<close> returns at once and changes nothing: the loop cannot be
  started again.
\<close>

theorem StartParsing_only_once:
  "\<not> parseRunning (NewEthParser st) \<and>
   parseRunning (StartParsing run p) \<and>
   (\<forall>ops. parseRunning (run_parser_ops ops (StartParsing run p))) \<and>
   (\<forall>ops run2. StartParsing run2 (run_parser_ops ops (StartParsing run p)) =
        run_parser_ops ops (StartParsing run p))"
proof -
  have a: "parseRunning (run_parser_ops ops (StartParsing run p))" for ops
    by (rule parseRunning_run_parser_ops) (rule parseRunning_StartParsing)
  have b: "StartParsing run2 (run_parser_ops ops (StartParsing run p)) =
        run_parser_ops ops (StartParsing run p)" for ops run2
    by (rule StartParsing_running) (rule a)
  have c: "\<not> parseRunning (NewEthParser st)" by (simp add: NewEthParser_def)
  from a b c parseRunning_StartParsing [of run p] show ?thesis by blast
qed

lemma running_step1: "processNextBlock (mock_client mc) (test_parser\<lparr>parseRunning := True\<rparr>) =
   (None, \<lparr>store = \<lparr>CurrentBlock = 1, subscribed = [''0x123'' \<mapsto> True],
      transactions = [''0x123'' \<mapsto> [tx1]]\<rparr>, parseRunning = True\<rparr>)"
  by (simp add: hex_defs mock_defs store_defs parser_defs Let_def tx1_def)

lemma running_step2: "processNextBlock (mock_client mc)
     \<lparr>store = \<lparr>CurrentBlock = 1, subscribed = [''0x123'' \<mapsto> True],
      transactions = [''0x123'' \<mapsto> [tx1]]\<rparr>, parseRunning = True\<rparr> =
   (None, \<lparr>store = \<lparr>CurrentBlock = 2, subscribed = [''0x123'' \<mapsto> True],
      transactions = [''0x123'' \<mapsto> [tx1, tx3]]\<rparr>, parseRunning = True\<rparr>)"
  by (simp add: hex_defs mock_defs store_defs parser_defs Let_def tx3_def)

lemma running_step3: "processNextBlock (mock_client mc)
     \<lparr>store = \<lparr>CurrentBlock = 2, subscribed = [''0x123'' \<mapsto> True],
      transactions = [''0x123'' \<mapsto> [tx1, tx3]]\<rparr>, parseRunning = True\<rparr> =
   (None, \<lparr>store = \<lparr>CurrentBlock = 3, subscribed = [''0x123'' \<mapsto> True],
      transactions = [''0x123'' \<mapsto> [tx1, tx3]]\<rparr>, parseRunning = True\<rparr>)"
  by (simp add: hex_defs mock_defs store_defs parser_defs Let_def)

lemma loop3: "parse_loop [mock_client mc, mock_client mc, mock_client mc]
     (test_parser\<lparr>parseRunning := True\<rparr>) = parser_at_3\<lparr>parseRunning := True\<rparr>"
  by (simp add: running_step1 running_step2 running_step3 parser_at_3_def)

theorem StartParsing_only_once_witness:
  "\<not> parseRunning test_parser \<and>
   StartParsing [mock_client mc, mock_client mc, mock_client mc] test_parser =
     parser_at_3\<lparr>parseRunning := True\<rparr> \<and>
   parseRunning (StartParsing [mock_client mc, mock_client mc, mock_client mc] test_parser) \<and>
   StartParsing [mock_client mc]
     (StartParsing [mock_client mc, mock_client mc, mock_client mc] test_parser) =
     parser_at_3\<lparr>parseRunning := True\<rparr>"
proof -
  have n: "\<not> parseRunning test_parser"
    by (simp add: parser_defs store_defs)
  have s: "StartParsing [mock_client mc, mock_client mc, mock_client mc] test_parser =
     parser_at_3\<lparr>parseRunning := True\<rparr>"
    using n by (simp only: StartParsing_def loop3 if_False)
  from StartParsing_only_once [of NewMemoryStore "[mock_client mc, mock_client mc, mock_client mc]" test_parser]
  have r: "parseRunning (StartParsing [mock_client mc, mock_client mc, mock_client mc] test_parser)"
    and "\<forall>ops run2. StartParsing run2 (run_parser_ops ops
          (StartParsing [mock_client mc, mock_client mc, mock_client mc] test_parser)) =
        run_parser_ops ops (StartParsing [mock_client mc, mock_client mc, mock_client mc] test_parser)"
    by blast+
  then have "StartParsing [mock_client mc] (run_parser_ops []
          (StartParsing [mock_client mc, mock_client mc, mock_client mc] test_parser)) =
        run_parser_ops [] (StartParsing [mock_client mc, mock_client mc, mock_client mc] test_parser)"
    by blast
  with s have again: "StartParsing [mock_client mc]
     (StartParsing [mock_client mc, mock_client mc, mock_client mc] test_parser) =
     parser_at_3\<lparr>parseRunning := True\<rparr>" by simp
  from n s r again show ?thesis by blast
qed

subsection \<open>Hex heights\<close>

lemma hex_digits_no_prefix:
  assumes "list_all is_hex_digit s"
  shows "\<not> (length s > 2 \<and> take 2 s = ''0x'')"
proof
  assume a: "length s > 2 \<and> take 2 s = ''0x''"
  then obtain a b rest where s: "s = a # b # rest" by (cases s; cases "tl s") auto
  with a have "b = CHR ''x''" by simp
  with assms s show False by (simp add: is_hex_digit_def)
qed

lemma hexToInt64_prefixed:
  "s \<noteq> [] \<Longrightarrow> hexToInt64 (''0x'' @ s) =
     (case ParseInt16 s of (val, Some e) \<Rightarrow> (0, Some e) | (val, None) \<Rightarrow> (val, None))"
  by (cases s) (simp_all add: hexToInt64_def split: prod.splits option.splits)

lemma hexToInt64_unprefixed:
  "\<not> (length s > 2 \<and> take 2 s = ''0x'') \<Longrightarrow> hexToInt64 s =
     (case ParseInt16 s of (val, Some e) \<Rightarrow> (0, Some e) | (val, None) \<Rightarrow> (val, None))"
  by (auto simp: hexToInt64_def split: prod.splits option.splits)

lemma hexToInt64_0x: "hexToInt64 ''0x'' = (0, Some (NumError ''ParseInt'' ''0x'' ErrSyntax))"
  by (simp add: hex_defs)

lemma hexToInt64_empty: "hexToInt64 [] = (0, Some (NumError ''ParseInt'' [] ErrSyntax))"
  by (simp add: hex_defs)

lemma hexToInt64OrZero_cases:
  "hexToInt64OrZero h = (case hexToInt64 h of (v, None) \<Rightarrow> v | (v, Some e) \<Rightarrow> 0)"
  by (simp add: hexToInt64OrZero_def hexToInt64_def split: prod.splits option.splits)

lemma parseTransactions_loop_map:
  "parseTransactions_loop block raws txs =
     txs @ map (\<lambda>tx. \<lparr>Hash = raw_Hash tx, From = raw_From tx, To = raw_To tx,
                       Value = raw_Value tx,
                       Block = hexToInt64OrZero (Number (Result block))\<rparr>) raws"
  by (induction raws arbitrary: txs) simp_all

text \<open>
  Claim C8. For a string \<open>s\<close> of hex digits, \<open>hexToInt64\<close> gives the same value, and
  fails or succeeds alike, with and without the prefix \<open>0x\<close>; for a non-empty \<open>s\<close> the
  two results are equal altogether (for the empty \<open>s\<close> both are the value 0 with a syntax
  error, which names the string it was given). \<open>parseTransactions\<close> decodes every raw
  transaction of the block, in order, and sets \<open>Block\<close> to the number parsed from the
  block's own \<open>number\<close> field, or to 0 when that field does not parse.
\<close>

theorem hex_prefix_optional_and_block_number:
  "(list_all is_hex_digit s \<longrightarrow>
      (s \<noteq> [] \<longrightarrow> hexToInt64 (''0x'' @ s) = hexToInt64 s) \<and>
      fst (hexToInt64 (''0x'' @ s)) = fst (hexToInt64 s) \<and>
      (snd (hexToInt64 (''0x'' @ s)) = None \<longleftrightarrow> snd (hexToInt64 s) = None)) \<and>
   parseTransactions block =
     map (\<lambda>tx. \<lparr>Hash = raw_Hash tx, From = raw_From tx, To = raw_To tx, Value = raw_Value tx,
                 Block = (case hexToInt64 (Number (Result block)) of
                            (v, None) \<Rightarrow> v
                          | (v, Some e) \<Rightarrow> 0)\<rparr>)
       (Transactions (Result block))"
proof -
  have eq: "hexToInt64 (''0x'' @ s) = hexToInt64 s" if "list_all is_hex_digit s" "s \<noteq> []"
    using hexToInt64_prefixed [OF that(2)] hexToInt64_unprefixed [OF hex_digits_no_prefix [OF that(1)]]
    by simp
  have val: "fst (hexToInt64 (''0x'' @ s)) = fst (hexToInt64 s) \<and>
      (snd (hexToInt64 (''0x'' @ s)) = None \<longleftrightarrow> snd (hexToInt64 s) = None)"
    if "list_all is_hex_digit s"
  proof (cases "s = []")
    case True
    then show ?thesis by (simp add: hexToInt64_0x hexToInt64_empty)
  next
    case False
    with that have "hexToInt64 (''0x'' @ s) = hexToInt64 s" by (rule eq)
    then show ?thesis by (simp only: simp_thms)
  qed
  have p: "parseTransactions block =
     map (\<lambda>tx. \<lparr>Hash = raw_Hash tx, From = raw_From tx, To = raw_To tx, Value = raw_Value tx,
                 Block = (case hexToInt64 (Number (Result block)) of
                            (v, None) \<Rightarrow> v
                          | (v, Some e) \<Rightarrow> 0)\<rparr>)
       (Transactions (Result block))"
    by (simp add: parseTransactions_def parseTransactions_loop_map hexToInt64OrZero_cases)
  have h: "list_all is_hex_digit s \<longrightarrow>
      (s \<noteq> [] \<longrightarrow> hexToInt64 (''0x'' @ s) = hexToInt64 s) \<and>
      fst (hexToInt64 (''0x'' @ s)) = fst (hexToInt64 s) \<and>
      (snd (hexToInt64 (''0x'' @ s)) = None \<longleftrightarrow> snd (hexToInt64 s) = None)"
  proof
    assume d: "list_all is_hex_digit s"
    from eq [OF d] have "s \<noteq> [] \<longrightarrow> hexToInt64 (''0x'' @ s) = hexToInt64 s" ..
    with val [OF d] show "(s \<noteq> [] \<longrightarrow> hexToInt64 (''0x'' @ s) = hexToInt64 s) \<and>
      fst (hexToInt64 (''0x'' @ s)) = fst (hexToInt64 s) \<and>
      (snd (hexToInt64 (''0x'' @ s)) = None \<longleftrightarrow> snd (hexToInt64 s) = None)" by (simp only: simp_thms)
  qed
  from h p show ?thesis ..
qed

theorem hex_prefix_optional_and_block_number_witness:
  "list_all is_hex_digit ''1aF'' \<and> ''1aF'' \<noteq> [] \<and>
   hexToInt64 ''0x1aF'' = hexToInt64 ''1aF'' \<and>
   hexToInt64 ''1aF'' = (431, None) \<and>
   snd (hexToInt64 (Number (Result bad_number_block))) \<noteq> None \<and>
   parseTransactions bad_number_block =
     [\<lparr>Hash = ''0xtx7'', From = ''0x123'', To = ''0x666'', Value = ''0x7'', Block = 0\<rparr>]"
proof -
  have h1: "list_all is_hex_digit ''1aF''" by (simp add: is_hex_digit_def)
  have h2: "''1aF'' \<noteq> []" by simp
  have v: "hexToInt64 ''1aF'' = (431, None)" by (simp add: hex_defs)
  have b: "hexToInt64 (Number (Result bad_number_block)) =
      (0, Some (NumError ''ParseInt'' ''latest'' ErrSyntax))"
    by (simp add: bad_number_block_def hex_defs)
  from hex_prefix_optional_and_block_number [of "''1aF''" bad_number_block] h1 h2
  have e: "hexToInt64 (''0x'' @ ''1aF'') = hexToInt64 ''1aF''"
    and p: "parseTransactions bad_number_block =
     map (\<lambda>tx. \<lparr>Hash = raw_Hash tx, From = raw_From tx, To = raw_To tx, Value = raw_Value tx,
                 Block = (case hexToInt64 (Number (Result bad_number_block)) of
                            (v, None) \<Rightarrow> v
                          | (v, Some e) \<Rightarrow> 0)\<rparr>)
       (Transactions (Result bad_number_block))"
    by blast+
  from e have e': "hexToInt64 ''0x1aF'' = hexToInt64 ''1aF''" by simp
  from p have p': "parseTransactions bad_number_block =
     [\<lparr>Hash = ''0xtx7'', From = ''0x123'', To = ''0x666'', Value = ''0x7'', Block = 0\<rparr>]"
    by (simp add: b) (simp add: bad_number_block_def)
  from b have nb: "snd (hexToInt64 (Number (Result bad_number_block))) \<noteq> None" by simp
  from h1 h2 e' v nb p' show ?thesis by blast
qed

subsection \<open>GetTransactions returns a copy\<close>

lemma H_GetTransactions_fresh:
  "s_array (fst (H_GetTransactions m A h)) = lim h"
  by (simp add: H_GetTransactions_def make_slice_def Let_def split: option.splits)

lemma H_GetTransactions_arrays:
  "a \<noteq> lim h \<Longrightarrow> arrays (snd (H_GetTransactions m A h)) a = arrays h a"
  by (simp add: H_GetTransactions_def make_slice_def copy_slice_def Let_def split: option.splits)

lemma H_GetTransactions_elems_None:
  "h_transactions m A = None \<Longrightarrow>
     elems (snd (H_GetTransactions m A h)) (fst (H_GetTransactions m A h)) = []"
  by (simp add: H_GetTransactions_def make_slice_def elems_def)

lemma H_GetTransactions_elems_Some:
  assumes "h_transactions m A = Some s" and "wf_store h m"
  shows "elems (snd (H_GetTransactions m A h)) (fst (H_GetTransactions m A h)) = elems h s"
proof -
  from assms have lt: "s_array s < lim h" and le: "s_len s \<le> length (arrays h (s_array s))"
    by (auto simp: wf_store_def)
  from lt have ne: "s_array s \<noteq> lim h" by simp
  from le have len: "length (elems h s) = s_len s" by (simp add: elems_def)
  from assms(1) ne len show ?thesis
    by (simp add: H_GetTransactions_def make_slice_def copy_slice_def Let_def elems_def)
qed

lemma abs_store_change_fresh:
  assumes "wf_store h m" and "\<And>a. a < lim h \<Longrightarrow> arrays h' a = arrays h a"
  shows "abs_store h' m = abs_store h m"
proof -
  have "map_option (elems h') (h_transactions m a) = map_option (elems h) (h_transactions m a)" for a
  proof (cases "h_transactions m a")
    case None
    then show ?thesis by simp
  next
    case (Some s)
    with assms(1) have "s_array s < lim h" by (auto simp: wf_store_def)
    with assms(2) have "elems h' s = elems h s" by (simp add: elems_def)
    with Some show ?thesis by simp
  qed
  then show ?thesis by (simp add: abs_store_def)
qed

text \<open>
  Claim C7. On a well-formed heap store, \<open>GetTransactions A\<close> returns a slice on an
  array that was not allocated before, so no slice of the store lies on it. Its elements
  are none when \<open>A\<close> has no entry, and otherwise the stored sequence of \<open>A\<close>, in its order;
  that is the list the value model \<open>GetTransactions\<close> gives. The call leaves the stored
  state as it was, and so does any later change of the contents of the returned slice's
  array.
\<close>

theorem GetTransactions_returns_copy:
  "wf_store h m \<Longrightarrow>
     (case H_GetTransactions m A h of (r, h') \<Rightarrow>
        (h_transactions m A = None \<longrightarrow> elems h' r = []) \<and>
        (\<forall>s. h_transactions m A = Some s \<longrightarrow> elems h' r = elems h s) \<and>
        elems h' r = GetTransactions (abs_store h m) A \<and>
        (\<forall>a s. h_transactions m a = Some s \<longrightarrow> s_array s \<noteq> s_array r) \<and>
        abs_store h' m = abs_store h m \<and>
        (\<forall>xs. abs_store (h'\<lparr>arrays := (arrays h')(s_array r := xs)\<rparr>) m = abs_store h m))"
proof -
  assume wf: "wf_store h m"
  obtain r h' where e: "H_GetTransactions m A h = (r, h')" by (cases "H_GetTransactions m A h")
  from e have r: "s_array r = lim h" using H_GetTransactions_fresh [of m A h] by simp
  from e have old: "arrays h' a = arrays h a" if "a < lim h" for a
    using that H_GetTransactions_arrays [of a h m A] by simp
  have c1: "h_transactions m A = None \<longrightarrow> elems h' r = []"
    using e H_GetTransactions_elems_None [of m A h] by simp
  have c2: "\<forall>s. h_transactions m A = Some s \<longrightarrow> elems h' r = elems h s"
    using e H_GetTransactions_elems_Some [OF _ wf, of A] by simp
  have c3: "elems h' r = GetTransactions (abs_store h m) A"
    using c1 c2 by (cases "h_transactions m A") (simp_all add: GetTransactions_def abs_store_def)
  have c4: "\<forall>a s. h_transactions m a = Some s \<longrightarrow> s_array s \<noteq> s_array r"
  proof (intro allI impI)
    fix a s
    assume "h_transactions m a = Some s"
    with wf have "s_array s < lim h" by (auto simp: wf_store_def)
    with r show "s_array s \<noteq> s_array r" by simp
  qed
  have c5: "abs_store h' m = abs_store h m"
    using wf old by (rule abs_store_change_fresh)
  have c6: "abs_store (h'\<lparr>arrays := (arrays h')(s_array r := xs)\<rparr>) m = abs_store h m" for xs
    using wf by (rule abs_store_change_fresh) (simp add: r old)
  from c1 c2 c3 c4 c5 c6 show ?thesis by (simp add: e)
qed

theorem GetTransactions_returns_copy_witness:
  "wf_store heap_after_test store_after_test \<and>
   fst (H_GetTransactions store_after_test ''0x123'' heap_after_test) = \<lparr>s_array = 1, s_len = 2\<rparr> \<and>
   elems (snd (H_GetTransactions store_after_test ''0x123'' heap_after_test))
     (fst (H_GetTransactions store_after_test ''0x123'' heap_after_test)) = [tx1, tx3] \<and>
   GetTransactions (abs_store
       ((snd (H_GetTransactions store_after_test ''0x123'' heap_after_test))
          \<lparr>arrays := (arrays (snd (H_GetTransactions store_after_test ''0x123'' heap_after_test)))
             (s_array (fst (H_GetTransactions store_after_test ''0x123'' heap_after_test)) :=
                [tx_abc, tx_abc])\<rparr>)
       store_after_test) ''0x123'' = [tx1, tx3]"
proof -
  have wf: "wf_store heap_after_test store_after_test"
    by (simp add: wf_store_def heap_after_test_def store_after_test_def)
  have r: "fst (H_GetTransactions store_after_test ''0x123'' heap_after_test) =
      \<lparr>s_array = 1, s_len = 2\<rparr>"
    by (simp add: H_GetTransactions_def make_slice_def heap_after_test_def store_after_test_def)
  have g: "GetTransactions (abs_store heap_after_test store_after_test) ''0x123'' = [tx1, tx3]"
    by (simp add: GetTransactions_def abs_store_def elems_def heap_after_test_def
        store_after_test_def)
  from GetTransactions_returns_copy [OF wf, of "''0x123''"]
  have c: "elems (snd (H_GetTransactions store_after_test ''0x123'' heap_after_test))
      (fst (H_GetTransactions store_after_test ''0x123'' heap_after_test)) =
        GetTransactions (abs_store heap_after_test store_after_test) ''0x123''"
    and d: "abs_store
       ((snd (H_GetTransactions store_after_test ''0x123'' heap_after_test))
          \<lparr>arrays := (arrays (snd (H_GetTransactions store_after_test ''0x123'' heap_after_test)))
             (s_array (fst (H_GetTransactions store_after_test ''0x123'' heap_after_test)) :=
                [tx_abc, tx_abc])\<rparr>)
       store_after_test = abs_store heap_after_test store_after_test"
    by (simp_all split: prod.splits)
  from wf r c d g show ?thesis by simp
qed

end
